theory Spec2Isabelle
  imports Complex_Main
begin

section \<open>Media response curve: adstock, saturation, elasticity, landmarks\<close>

text \<open>
  A shallow embedding of \<^verbatim>\<open>src/media_response_curve/app.py\<close>.

  Numbers. The program computes with IEEE doubles (Python \<^verbatim>\<open>float\<close>, numpy
  \<^verbatim>\<open>float64\<close>). They are idealised here as \<^typ>\<open>real\<close>: rounding, overflow and
  the values \<^verbatim>\<open>nan\<close> and \<^verbatim>\<open>inf\<close> have no counterpart. Where the program would
  produce \<^verbatim>\<open>nan\<close> or \<^verbatim>\<open>inf\<close> (a quotient with divisor zero inside numpy, a
  negative base raised to a fractional power) the value of the model is not meaningful,
  and the theorems that depend on such a value carry the hypothesis that excludes it.

  Exceptions. A Python exception that leaves a function is the \<open>Inl\<close> branch of a sum.
\<close>

datatype error = ZeroDivisionError | IndexError | ValueError

subsection \<open>Powers\<close>

text \<open>
  \<^verbatim>\<open>x ** y\<close> on floats with a non-negative base: \<^verbatim>\<open>x ** 0\<close> is \<^verbatim>\<open>1\<close> (also for
  \<^verbatim>\<open>x = 0\<close>), \<^verbatim>\<open>0 ** y\<close> is \<^verbatim>\<open>0\<close> for \<^verbatim>\<open>y > 0\<close>, and \<^verbatim>\<open>x ** y\<close> is
  \<open>exp (y * ln x)\<close> for \<^verbatim>\<open>x > 0\<close>. (HOL's \<open>0 powr 0\<close> is \<open>0\<close>, hence the first branch.)
  A negative base (Python gives a complex number, numpy \<^verbatim>\<open>nan\<close>) and, on arrays, base
  zero with a negative exponent (numpy gives \<^verbatim>\<open>inf\<close>) are outside this model.
\<close>

definition float_pow :: "real \<Rightarrow> real \<Rightarrow> real" where
  "float_pow x y = (if y = 0 then 1 else x powr y)"

text \<open>
  On a numpy array \<^verbatim>\<open>**\<close> and \<^verbatim>\<open>/\<close> never raise. On two Python floats they do:
  \<^verbatim>\<open>0.0 ** y\<close> with \<^verbatim>\<open>y < 0\<close> and \<^verbatim>\<open>a / 0.0\<close> raise \<^verbatim>\<open>ZeroDivisionError\<close>.
  The parameters \<^verbatim>\<open>half_life\<close>, \<^verbatim>\<open>penetration\<close>, \<^verbatim>\<open>effectiveness\<close> and the
  exponent are Python floats (the values of the script's number inputs).

  Not modelled: the \<^verbatim>\<open>OverflowError\<close> of a power beyond the range of a double (as
  \<^verbatim>\<open>0.5 ** (1 / -0.0005)\<close> or \<^verbatim>\<open>1e200 ** 2.0\<close>) and the complex result of a negative
  base with a fractional exponent. A theorem below that says which runs return restricts
  the parameters to the ranges of the script's number inputs, where neither occurs.
\<close>

definition scalar_pow :: "real \<Rightarrow> real \<Rightarrow> error + real" where
  "scalar_pow x y = (if x = 0 \<and> y < 0 then Inl ZeroDivisionError else Inr (float_pow x y))"

definition scalar_div :: "real \<Rightarrow> real \<Rightarrow> error + real" where
  "scalar_div a b = (if b = 0 then Inl ZeroDivisionError else Inr (a / b))"

subsection \<open>\<^verbatim>\<open>compute_adstock_series\<close>\<close>

text \<open>
  \<^verbatim>\<open>
  def compute_adstock_series(spend_series, half_life):
      decay = 0.5 ** (1 / half_life)
      adstocked = []
      carryover = 0
      for spend in spend_series:
          current = spend + decay * carryover
          adstocked.append(current)
          carryover = current
      return np.array(adstocked)
  \<close>
  The loop is a recursion over the remaining spends that threads the two mutable
  variables \<^verbatim>\<open>adstocked\<close> and \<^verbatim>\<open>carryover\<close>. \<^verbatim>\<open>1 / half_life\<close> raises
  \<^verbatim>\<open>ZeroDivisionError\<close> at zero; the power has the base \<^verbatim>\<open>0.5\<close> and cannot.
\<close>

fun adstock_loop :: "real \<Rightarrow> real list \<Rightarrow> real list \<Rightarrow> real \<Rightarrow> real list" where
  "adstock_loop decay [] adstocked carryover = adstocked"
| "adstock_loop decay (spend # rest) adstocked carryover =
     (let current = spend + decay * carryover
      in adstock_loop decay rest (adstocked @ [current]) current)"

definition compute_adstock_series :: "real list \<Rightarrow> real \<Rightarrow> error + real list" where
  "compute_adstock_series spend_series half_life =
     (if half_life = 0 then Inl ZeroDivisionError
      else case scalar_pow (1 / 2) (1 / half_life) of
             Inl e \<Rightarrow> Inl e
           | Inr decay \<Rightarrow> Inr (adstock_loop decay spend_series [] 0))"

subsection \<open>\<^verbatim>\<open>saturation_function\<close> and \<^verbatim>\<open>compute_response_series\<close>\<close>

text \<open>
  \<^verbatim>\<open>
  def saturation_function(adstocked_spend, penetration, p=0.5):
      return (adstocked_spend ** p) / (adstocked_spend ** p + penetration ** p)
  \<close>
  The function is called on the numpy array \<^verbatim>\<open>adstocked\<close>, where \<^verbatim>\<open>**\<close>, \<^verbatim>\<open>+\<close>
  and \<^verbatim>\<open>/\<close> are elementwise; \<^verbatim>\<open>penetration ** p\<close> is a power of two Python floats.
\<close>

definition saturation_function :: "real list \<Rightarrow> real \<Rightarrow> real \<Rightarrow> error + real list" where
  "saturation_function adstocked_spend penetration p =
     (case scalar_pow penetration p of
        Inl e \<Rightarrow> Inl e
      | Inr pen_p \<Rightarrow>
          Inr (map (\<lambda>x. float_pow x p / (float_pow x p + pen_p)) adstocked_spend))"

text \<open>
  \<^verbatim>\<open>
  def compute_response_series(spend_series, half_life, penetration, effectiveness, p=0.5):
      adstocked = compute_adstock_series(spend_series, half_life)
      saturated = saturation_function(adstocked, penetration, p)
      response = effectiveness * saturated
      return response, adstocked
  \<close>
\<close>

definition compute_response_series ::
  "real list \<Rightarrow> real \<Rightarrow> real \<Rightarrow> real \<Rightarrow> real \<Rightarrow> error + (real list \<times> real list)" where
  "compute_response_series spend_series half_life penetration effectiveness p =
     (case compute_adstock_series spend_series half_life of
        Inl e \<Rightarrow> Inl e
      | Inr adstocked \<Rightarrow>
          (case saturation_function adstocked penetration p of
             Inl e \<Rightarrow> Inl e
           | Inr saturated \<Rightarrow>
               let response = map (\<lambda>v. effectiveness * v) saturated
               in Inr (response, adstocked)))"

subsection \<open>\<^verbatim>\<open>np.gradient\<close> and \<^verbatim>\<open>compute_elasticity\<close>\<close>

text \<open>
  \<^verbatim>\<open>np.gradient(f, x)\<close> is numpy's, called here with two one-dimensional arrays and the
  default \<^verbatim>\<open>edge_order=1\<close>. Its steps for that call, in numpy's order:
  \<^verbatim>\<open>
  if len(distances) != f.shape[axis]: raise ValueError(...)
  diffx = np.diff(distances)
  if (diffx == diffx[0]).all(): diffx = diffx[0]        # constant spacing: a scalar
  ...
  if f.shape[axis] < edge_order + 1: raise ValueError(...)
  if uniform_spacing:
      out[1:-1] = (f[2:] - f[:-2]) / (2. * ax_dx)
  else:
      dx1 = ax_dx[0:-1]; dx2 = ax_dx[1:]
      a = -(dx2)/(dx1 * (dx1 + dx2))
      b = (dx2 - dx1) / (dx1 * dx2)
      c = dx1 / (dx2 * (dx1 + dx2))
      out[1:-1] = a * f[:-2] + b * f[1:-1] + c * f[2:]
  out[0]  = (f[1] - f[0]) / dx_0        # dx_0 = ax_dx or ax_dx[0]
  out[-1] = (f[-1] - f[-2]) / dx_n      # dx_n = ax_dx or ax_dx[-1]
  \<close>
  With fewer than two samples \<^verbatim>\<open>diffx\<close> is empty and \<^verbatim>\<open>diffx[0]\<close> raises
  \<^verbatim>\<open>IndexError\<close>, before the size test is reached.

  Where two neighbouring coordinates are equal (or the two spacings around a sample cancel)
  numpy divides by zero and the slope is \<^verbatim>\<open>nan\<close> or \<^verbatim>\<open>inf\<close>; the quotient of the model
  is \<open>0\<close> there and stands for no value of the program.
\<close>

definition np_diff :: "real list \<Rightarrow> real list" where
  "np_diff x = map (\<lambda>i. x ! Suc i - x ! i) [0..<length x - 1]"

definition gradient_uniform :: "real list \<Rightarrow> real \<Rightarrow> real list" where
  "gradient_uniform f ax_dx =
     (let n = length f
      in [(f ! 1 - f ! 0) / ax_dx]
         @ map (\<lambda>i. (f ! (i + 1) - f ! (i - 1)) / (2 * ax_dx)) [1..<n - 1]
         @ [(f ! (n - 1) - f ! (n - 2)) / ax_dx])"

definition gradient_interior :: "real list \<Rightarrow> real list \<Rightarrow> nat \<Rightarrow> real" where
  "gradient_interior f ax_dx i =
     (let dx1 = ax_dx ! (i - 1);
          dx2 = ax_dx ! i;
          a = - dx2 / (dx1 * (dx1 + dx2));
          b = (dx2 - dx1) / (dx1 * dx2);
          c = dx1 / (dx2 * (dx1 + dx2))
      in a * f ! (i - 1) + b * f ! i + c * f ! (i + 1))"

definition gradient_nonuniform :: "real list \<Rightarrow> real list \<Rightarrow> real list" where
  "gradient_nonuniform f ax_dx =
     (let n = length f
      in [(f ! 1 - f ! 0) / ax_dx ! 0]
         @ map (gradient_interior f ax_dx) [1..<n - 1]
         @ [(f ! (n - 1) - f ! (n - 2)) / ax_dx ! (n - 2)])"

definition np_gradient :: "real list \<Rightarrow> real list \<Rightarrow> error + real list" where
  "np_gradient f x =
     (if length x \<noteq> length f then Inl ValueError
      else let diffx = np_diff x
           in if diffx = [] then Inl IndexError
              else if length f < 2 then Inl ValueError
              else if list_all (\<lambda>d. d = diffx ! 0) diffx
                   then Inr (gradient_uniform f (diffx ! 0))
                   else Inr (gradient_nonuniform f diffx))"

text \<open>
  \<^verbatim>\<open>
  def compute_elasticity(response, adstocked):
      dy = np.gradient(response, adstocked)
      with np.errstate(divide='ignore', invalid='ignore'):
          elasticity = np.where(response != 0, dy * (adstocked / response), 0)
      return dy, elasticity
  \<close>
  \<^verbatim>\<open>np.where\<close> selects elementwise; the quotient at an index with
  \<^verbatim>\<open>response == 0\<close> is computed and discarded.
\<close>

definition compute_elasticity :: "real list \<Rightarrow> real list \<Rightarrow> error + (real list \<times> real list)" where
  "compute_elasticity response adstocked =
     (case np_gradient response adstocked of
        Inl e \<Rightarrow> Inl e
      | Inr dy \<Rightarrow>
          Inr (dy, map (\<lambda>i. if response ! i \<noteq> 0
                              then dy ! i * (adstocked ! i / response ! i) else 0)
                       [0..<length response]))"

subsection \<open>The landmark points A, C and D\<close>

text \<open>
  \<^verbatim>\<open>
  point_A_x = penetration
  point_A_y = effectiveness * (point_A_x ** hill_power
                               / (point_A_x ** hill_power + penetration ** hill_power))
  slope_threshold = slope.max() * 0.5
  idx_C = np.where(slope < slope_threshold)[0][0]
  point_C_x = adstocked[idx_C]
  point_C_y = response[idx_C]
  idx_D = np.where(slope < 0.01)[0][0]
  point_D_x = adstocked[idx_D]
  point_D_y = response[idx_D]
  \<close>
  \<^verbatim>\<open>np.where(cond)[0]\<close> is the array of the indices at which \<^verbatim>\<open>cond\<close> holds, in
  increasing order; its element \<^verbatim>\<open>[0]\<close> raises \<^verbatim>\<open>IndexError\<close> when there is none.
  \<^verbatim>\<open>slope.max()\<close> raises \<^verbatim>\<open>ValueError\<close> on an empty array.
\<close>

definition np_max :: "real list \<Rightarrow> error + real" where
  "np_max xs = (if xs = [] then Inl ValueError else Inr (fold max (tl xs) (hd xs)))"

definition first_where :: "(real \<Rightarrow> bool) \<Rightarrow> real list \<Rightarrow> error + nat" where
  "first_where cond xs =
     (case filter (\<lambda>i. cond (xs ! i)) [0..<length xs] of
        [] \<Rightarrow> Inl IndexError
      | i # _ \<Rightarrow> Inr i)"

definition point_A :: "real \<Rightarrow> real \<Rightarrow> real \<Rightarrow> error + real \<times> real" where
  "point_A penetration effectiveness hill_power =
     (let point_A_x = penetration
      in case scalar_pow point_A_x hill_power of
           Inl e \<Rightarrow> Inl e
         | Inr num \<Rightarrow>
             (case scalar_pow penetration hill_power of
                Inl e \<Rightarrow> Inl e
              | Inr pen_p \<Rightarrow>
                  (case scalar_div num (num + pen_p) of
                     Inl e \<Rightarrow> Inl e
                   | Inr ratio \<Rightarrow> Inr (point_A_x, effectiveness * ratio))))"

definition idx_C :: "real list \<Rightarrow> error + nat" where
  "idx_C slope =
     (case np_max slope of
        Inl e \<Rightarrow> Inl e
      | Inr m \<Rightarrow> let slope_threshold = m * (1 / 2)
                 in first_where (\<lambda>v. v < slope_threshold) slope)"

definition idx_D :: "real list \<Rightarrow> error + nat" where
  "idx_D slope = first_where (\<lambda>v. v < 1 / 100) slope"

text \<open>
  The values of the script's variables once Point D has been computed (lines 80 to 105),
  or the exception that ended the script before.
\<close>

record curve =
  var_response :: "real list"
  var_adstocked :: "real list"
  var_slope :: "real list"
  var_elasticity :: "real list"
  var_point_A :: "real \<times> real"
  var_point_C :: "real \<times> real"
  var_point_D :: "real \<times> real"

definition run_analysis :: "real list \<Rightarrow> real \<Rightarrow> real \<Rightarrow> real \<Rightarrow> real \<Rightarrow> error + curve" where
  "run_analysis spend half_life penetration effectiveness hill_power =
     (case compute_response_series spend half_life penetration effectiveness hill_power of
        Inl e \<Rightarrow> Inl e
      | Inr (response, adstocked) \<Rightarrow>
          (case compute_elasticity response adstocked of
             Inl e \<Rightarrow> Inl e
           | Inr (slope, elasticity) \<Rightarrow>
               (case point_A penetration effectiveness hill_power of
                  Inl e \<Rightarrow> Inl e
                | Inr pA \<Rightarrow>
                    (case idx_C slope of
                       Inl e \<Rightarrow> Inl e
                     | Inr c \<Rightarrow>
                         (case idx_D slope of
                            Inl e \<Rightarrow> Inl e
                          | Inr d \<Rightarrow>
                              Inr \<lparr>var_response = response, var_adstocked = adstocked,
                                   var_slope = slope, var_elasticity = elasticity,
                                   var_point_A = pA,
                                   var_point_C = (adstocked ! c, response ! c),
                                   var_point_D = (adstocked ! d, response ! d)\<rparr>)))))"

subsection \<open>The scan computed by the adstock loop\<close>

text \<open>The loop of \<open>adstock_loop\<close> without the accumulator; used to reason about it.\<close>

fun carry_scan :: "real \<Rightarrow> real \<Rightarrow> real list \<Rightarrow> real list" where
  "carry_scan decay carryover [] = []"
| "carry_scan decay carryover (spend # rest) =
     (spend + decay * carryover) # carry_scan decay (spend + decay * carryover) rest"

section \<open>Auxiliary facts\<close>

subsection \<open>The adstock loop\<close>

lemma adstock_loop_scan:
  "adstock_loop decay xs acc c = acc @ carry_scan decay c xs"
  by (induction xs arbitrary: acc c) (simp_all add: Let_def)

lemma length_carry_scan: "length (carry_scan decay c xs) = length xs"
  by (induction xs arbitrary: c) simp_all

lemma carry_scan_first: "xs \<noteq> [] \<Longrightarrow> carry_scan decay c xs ! 0 = xs ! 0 + decay * c"
  by (cases xs) simp_all

lemma carry_scan_step:
  "Suc i < length xs \<Longrightarrow>
     carry_scan decay c xs ! Suc i = xs ! Suc i + decay * carry_scan decay c xs ! i"
proof (induction xs arbitrary: c i)
  case Nil
  then show ?case by simp
next
  case (Cons x xs)
  show ?case
  proof (cases i)
    case 0
    with Cons.prems show ?thesis by (simp add: carry_scan_first)
  next
    case (Suc j)
    with Cons.prems have "Suc j < length xs" by simp
    from Cons.IH [OF this] Suc show ?thesis by simp
  qed
qed

lemma scalar_pow_pos: "0 < x \<Longrightarrow> scalar_pow x y = Inr (x powr y)"
  by (simp add: scalar_pow_def float_pow_def)

lemma compute_adstock_series_scan:
  "half_life \<noteq> 0 \<Longrightarrow>
     compute_adstock_series s half_life = Inr (carry_scan ((1 / 2) powr (1 / half_life)) 0 s)"
  by (simp add: compute_adstock_series_def scalar_pow_def float_pow_def adstock_loop_scan)

lemma carry_scan_dominates:
  assumes "0 \<le> decay" and "0 \<le> c" and "\<forall>x\<in>set xs. 0 \<le> x" and "i < length xs"
  shows "xs ! i \<le> carry_scan decay c xs ! i"
  using assms(2-)
proof (induction xs arbitrary: c i)
  case Nil
  then show ?case by simp
next
  case (Cons x xs)
  from Cons.prems assms(1) have carry: "0 \<le> decay * c" by simp
  show ?case
  proof (cases i)
    case 0
    with carry show ?thesis by simp
  next
    case (Suc j)
    from Cons.prems carry have "0 \<le> x + decay * c" by simp
    moreover from Cons.prems have "\<forall>y\<in>set xs. 0 \<le> y" by simp
    moreover from Cons.prems Suc have "j < length xs" by simp
    ultimately have "xs ! j \<le> carry_scan decay (x + decay * c) xs ! j" by (rule Cons.IH)
    with Suc show ?thesis by simp
  qed
qed

lemma carry_scan_zero:
  "\<forall>x\<in>set xs. x = 0 \<Longrightarrow> carry_scan decay 0 xs = replicate (length xs) 0"
  by (induction xs) simp_all

subsection \<open>Saturation and the response series\<close>

lemma saturation_function_pos:
  "0 < pen \<Longrightarrow>
     saturation_function xs pen p
       = Inr (map (\<lambda>x. float_pow x p / (float_pow x p + pen powr p)) xs)"
  by (simp add: saturation_function_def scalar_pow_pos)

lemma point_A_value: "0 < pen \<Longrightarrow> point_A pen eff p = Inr (pen, eff * (1 / 2))"
proof -
  assume pos: "0 < pen"
  then have q: "0 < pen powr p" by simp
  then have "pen powr p + pen powr p \<noteq> 0" by simp
  moreover from q have "pen powr p / (pen powr p + pen powr p) = 1 / 2" by (simp add: field_simps)
  ultimately show ?thesis using pos
    by (simp add: point_A_def scalar_pow_pos scalar_div_def Let_def)
qed

lemma compute_response_series_eq:
  "compute_response_series spend h pen eff p =
     (if h = 0 \<or> (pen = 0 \<and> p < 0) then Inl ZeroDivisionError
      else let adstocked = carry_scan ((1 / 2) powr (1 / h)) 0 spend
           in Inr (map (\<lambda>x. eff * (float_pow x p / (float_pow x p + float_pow pen p))) adstocked,
                   adstocked))"
proof (cases "h = 0")
  case True
  then show ?thesis by (simp add: compute_response_series_def compute_adstock_series_def)
next
  case False
  then show ?thesis
    by (simp add: compute_response_series_def compute_adstock_series_scan
        saturation_function_def scalar_pow_def Let_def comp_def)
qed

lemma compute_response_series_lengths:
  assumes "compute_response_series spend h pen eff p = Inr (response, adstocked)"
  shows "length response = length spend \<and> length adstocked = length spend"
  using assms
  by (auto simp: compute_response_series_eq Let_def length_carry_scan split: if_splits)

subsection \<open>Searching the first index\<close>

lemma np_max_Max: "xs \<noteq> [] \<Longrightarrow> np_max xs = Inr (Max (set xs))"
  by (cases xs) (simp_all add: np_max_def Max.set_eq_fold [symmetric])

lemma idx_C_threshold:
  "slope \<noteq> [] \<Longrightarrow> idx_C slope = first_where (\<lambda>v. v < Max (set slope) * (1 / 2)) slope"
  by (simp add: idx_C_def np_max_Max Let_def)

lemma filter_upt_head:
  assumes "filter P [0..<n] = i # rest"
  shows "i < n \<and> P i \<and> (\<forall>k<i. \<not> P k)"
proof -
  have mem: "i \<in> set (filter P [0..<n])" using assms by simp
  then have in_range: "i < n" and holds: "P i" by simp_all
  have "sorted (filter P [0..<n])" by (simp add: sorted_filter [where f = "\<lambda>x. x", simplified])
  with assms have least: "\<forall>y\<in>set rest. i \<le> y" by simp
  have "\<forall>k<i. \<not> P k"
  proof (intro allI impI notI)
    fix k assume "k < i" and "P k"
    with in_range have "k \<in> set (filter P [0..<n])" by simp
    with assms have "k = i \<or> k \<in> set rest" by simp
    with least \<open>k < i\<close> show False by auto
  qed
  with in_range holds show ?thesis by simp
qed

lemma first_where_none:
  "first_where cond xs = Inl IndexError \<longleftrightarrow> (\<forall>i<length xs. \<not> cond (xs ! i))"
proof (cases "filter (\<lambda>i. cond (xs ! i)) [0..<length xs]")
  case Nil
  then show ?thesis by (auto simp: first_where_def filter_empty_conv)
next
  case (Cons i rest)
  from filter_upt_head [OF this] Cons show ?thesis by (auto simp: first_where_def)
qed

lemma first_where_error: "first_where cond xs = Inl e \<Longrightarrow> e = IndexError"
  by (auto simp: first_where_def split: list.splits)

lemma first_where_found:
  assumes "first_where cond xs = Inr i"
  shows "i < length xs \<and> cond (xs ! i) \<and> (\<forall>k<i. \<not> cond (xs ! k))"
proof -
  from assms obtain rest where "filter (\<lambda>i. cond (xs ! i)) [0..<length xs] = i # rest"
    by (auto simp: first_where_def split: list.splits)
  from filter_upt_head [OF this] show ?thesis .
qed

lemma first_where_exists:
  assumes "\<exists>i<length xs. cond (xs ! i)"
  shows "\<exists>i. first_where cond xs = Inr i"
proof (cases "first_where cond xs")
  case (Inl e)
  then have "first_where cond xs = Inl IndexError" using first_where_error by blast
  with assms show ?thesis by (auto simp: first_where_none)
next
  case (Inr i)
  then show ?thesis by blast
qed

subsection \<open>The numerical gradient\<close>

lemma length_np_diff: "length (np_diff x) = length x - 1"
  by (simp add: np_diff_def)

lemma np_gradient_short:
  "length f < 2 \<Longrightarrow>
     np_gradient f x = Inl (if length x = length f then IndexError else ValueError)"
  by (cases x; cases "tl x") (auto simp: np_gradient_def np_diff_def)

lemma nth_np_diff: "Suc i < length x \<Longrightarrow> np_diff x ! i = x ! Suc i - x ! i"
proof -
  assume "Suc i < length x"
  then have "i < length x - 1" by simp
  then show ?thesis by (simp add: np_diff_def)
qed

lemma length_edges: "2 \<le> n \<Longrightarrow> length ([a] @ map g [1..<n - 1] @ [b]) = n"
  by simp

lemma nth_edges_first: "([a] @ map g [1..<n - 1] @ [b]) ! 0 = a"
  by simp

lemma nth_edges_last: "2 \<le> n \<Longrightarrow> ([a] @ map g [1..<n - 1] @ [b]) ! (n - 1) = b"
proof -
  assume n: "2 \<le> n"
  then have "length ([a] @ map g [1..<n - 1]) = n - 1" by simp
  then show ?thesis
    by (metis append.assoc nth_append_length)
qed

lemma nth_edges_interior:
  assumes "0 < i" "i < n - 1"
  shows "([a] @ map g [1..<n - 1] @ [b]) ! i = g i"
proof -
  from assms obtain j where j: "i = Suc j" by (cases i) auto
  with assms have "j < length (map g [1..<n - 1])" by simp
  then have "(map g [1..<n - 1] @ [b]) ! j = map g [1..<n - 1] ! j"
    by (simp add: nth_append)
  also from assms j have "\<dots> = g (1 + j)" by simp
  finally show ?thesis using j by simp
qed

lemma np_diff_uniform:
  assumes "list_all (\<lambda>d. d = np_diff x ! 0) (np_diff x)" "Suc i < length x"
  shows "x ! Suc i - x ! i = np_diff x ! 0"
proof -
  from assms(2) have "i < length (np_diff x)" by (simp add: length_np_diff)
  with assms(1) have "np_diff x ! i = np_diff x ! 0"
    by (simp add: list_all_length)
  with assms(2) show ?thesis by (simp add: nth_np_diff)
qed

text \<open>In exact arithmetic the constant-spacing shortcut computes what the general formula does.\<close>

lemma gradient_interior_uniform:
  assumes "ax_dx ! (i - 1) = h" "ax_dx ! i = h"
  shows "gradient_interior f ax_dx i = (f ! (i + 1) - f ! (i - 1)) / (2 * h)"
proof (cases "h = 0")
  case True
  with assms show ?thesis by (simp add: gradient_interior_def)
next
  case False
  with assms show ?thesis
    by (simp add: gradient_interior_def field_simps)
qed

lemma np_gradient_result:
  assumes len: "length x = length f" and n: "2 \<le> length f"
  shows "np_gradient f x =
           Inr ([(f ! 1 - f ! 0) / (x ! 1 - x ! 0)]
                @ map (gradient_interior f (np_diff x)) [1..<length f - 1]
                @ [(f ! (length f - 1) - f ! (length f - 2))
                     / (x ! (length f - 1) - x ! (length f - 2))])"
proof -
  let ?d = "np_diff x" and ?n = "length f"
  from len n have ne: "?d \<noteq> []" by (auto simp: np_diff_def)
  from len n have d0: "?d ! 0 = x ! 1 - x ! 0" by (simp add: nth_np_diff)
  from len n have "Suc (?n - 2) < length x" by simp
  from nth_np_diff [OF this] n have dn: "?d ! (?n - 2) = x ! (?n - 1) - x ! (?n - 2)"
    by (simp add: Suc_diff_Suc numeral_2_eq_2)
  show ?thesis
  proof (cases "list_all (\<lambda>d. d = ?d ! 0) ?d")
    case True
    from len n have "Suc (?n - 2) < length x" by simp
    from np_diff_uniform [OF True this] n have last_eq: "x ! (?n - 1) - x ! (?n - 2) = ?d ! 0"
      by (simp add: Suc_diff_Suc numeral_2_eq_2)
    have inner: "map (\<lambda>i. (f ! (i + 1) - f ! (i - 1)) / (2 * ?d ! 0)) [1..<?n - 1]
                 = map (gradient_interior f ?d) [1..<?n - 1]"
    proof (rule map_cong [OF refl])
      fix i assume "i \<in> set [1..<?n - 1]"
      then have i: "0 < i" "i < ?n - 1" by simp_all
      with len have "i - 1 < length ?d" "i < length ?d" by (simp_all add: length_np_diff)
      with True have "?d ! (i - 1) = ?d ! 0" "?d ! i = ?d ! 0"
        by (simp_all add: list_all_length)
      from gradient_interior_uniform [OF this]
      show "(f ! (i + 1) - f ! (i - 1)) / (2 * ?d ! 0) = gradient_interior f ?d i" by simp
    qed
    from True ne len n have "np_gradient f x = Inr (gradient_uniform f (?d ! 0))"
      by (simp add: np_gradient_def Let_def)
    also have "gradient_uniform f (?d ! 0)
               = [(f ! 1 - f ! 0) / ?d ! 0]
                 @ map (gradient_interior f ?d) [1..<?n - 1]
                 @ [(f ! (?n - 1) - f ! (?n - 2)) / ?d ! 0]"
      unfolding gradient_uniform_def Let_def inner ..
    also have "\<dots> = [(f ! 1 - f ! 0) / (x ! 1 - x ! 0)]
                 @ map (gradient_interior f ?d) [1..<?n - 1]
                 @ [(f ! (?n - 1) - f ! (?n - 2)) / (x ! (?n - 1) - x ! (?n - 2))]"
      unfolding last_eq unfolding d0 ..
    finally show ?thesis .
  next
    case False
    with ne len n have "np_gradient f x = Inr (gradient_nonuniform f ?d)"
      by (simp add: np_gradient_def Let_def)
    also have "gradient_nonuniform f ?d
               = [(f ! 1 - f ! 0) / (x ! 1 - x ! 0)]
                 @ map (gradient_interior f ?d) [1..<?n - 1]
                 @ [(f ! (?n - 1) - f ! (?n - 2)) / (x ! (?n - 1) - x ! (?n - 2))]"
      unfolding gradient_nonuniform_def Let_def dn d0 ..
    finally show ?thesis .
  qed
qed

lemma np_gradient_facts:
  assumes len: "length x = length f" and n: "2 \<le> length f"
  shows "\<exists>dy. np_gradient f x = Inr dy \<and> length dy = length f
          \<and> dy ! 0 = (f ! 1 - f ! 0) / (x ! 1 - x ! 0)
          \<and> dy ! (length f - 1)
              = (f ! (length f - 1) - f ! (length f - 2)) / (x ! (length f - 1) - x ! (length f - 2))
          \<and> (\<forall>i. 0 < i \<and> i < length f - 1 \<longrightarrow> dy ! i = gradient_interior f (np_diff x) i)"
proof -
  let ?n = "length f"
  let ?dy = "[(f ! 1 - f ! 0) / (x ! 1 - x ! 0)]
             @ map (gradient_interior f (np_diff x)) [1..<?n - 1]
             @ [(f ! (?n - 1) - f ! (?n - 2)) / (x ! (?n - 1) - x ! (?n - 2))]"
  have run: "np_gradient f x = Inr ?dy" by (rule np_gradient_result [OF len n])
  have l: "length ?dy = ?n" by (rule length_edges [OF n])
  have first: "?dy ! 0 = (f ! 1 - f ! 0) / (x ! 1 - x ! 0)" by (rule nth_edges_first)
  have last: "?dy ! (?n - 1) = (f ! (?n - 1) - f ! (?n - 2)) / (x ! (?n - 1) - x ! (?n - 2))"
    by (rule nth_edges_last [OF n])
  have inner: "\<forall>i. 0 < i \<and> i < ?n - 1 \<longrightarrow> ?dy ! i = gradient_interior f (np_diff x) i"
  proof (intro allI impI)
    fix i assume "0 < i \<and> i < ?n - 1"
    then have "0 < i" "i < ?n - 1" by simp_all
    then show "?dy ! i = gradient_interior f (np_diff x) i"
      by (rule nth_edges_interior [where g = "gradient_interior f (np_diff x)"])
  qed
  from run l first last inner show ?thesis
    by (intro exI [of _ ?dy] conjI)
qed

lemma np_gradient_Inr_lengths:
  assumes "np_gradient f x = Inr dy"
  shows "length x = length f \<and> 2 \<le> length f"
proof -
  from assms have len: "length x = length f"
    by (auto simp: np_gradient_def split: if_splits)
  have "\<not> length f < 2"
  proof
    assume "length f < 2"
    from np_gradient_short [OF this] assms show False by simp
  qed
  with len show ?thesis by simp
qed

lemma gradient_interior_Suc:
  assumes "Suc (Suc j) < length x"
  shows "gradient_interior f (np_diff x) (Suc j) =
          - (x ! Suc (Suc j) - x ! Suc j)
              / ((x ! Suc j - x ! j) * ((x ! Suc j - x ! j) + (x ! Suc (Suc j) - x ! Suc j))) * f ! j
          + ((x ! Suc (Suc j) - x ! Suc j) - (x ! Suc j - x ! j))
              / ((x ! Suc j - x ! j) * (x ! Suc (Suc j) - x ! Suc j)) * f ! Suc j
          + (x ! Suc j - x ! j)
              / ((x ! Suc (Suc j) - x ! Suc j) * ((x ! Suc j - x ! j) + (x ! Suc (Suc j) - x ! Suc j)))
            * f ! Suc (Suc j)"
proof -
  from assms have "Suc j < length x" by simp
  from nth_np_diff [OF this] have d1: "np_diff x ! j = x ! Suc j - x ! j" .
  from nth_np_diff [OF assms] have d2: "np_diff x ! Suc j = x ! Suc (Suc j) - x ! Suc j" .
  show ?thesis
    unfolding gradient_interior_def Let_def by (simp add: d1 d2)
qed

lemma gradient_interior_central:
  assumes "Suc (Suc j) < length x"
    and eq: "x ! Suc j - x ! j = x ! Suc (Suc j) - x ! Suc j"
  shows "gradient_interior f (np_diff x) (Suc j)
           = (f ! Suc (Suc j) - f ! j) / (x ! Suc (Suc j) - x ! j)"
proof -
  from assms have "Suc j < length x" by simp
  from nth_np_diff [OF this] eq have d1: "np_diff x ! (Suc j - 1) = x ! Suc (Suc j) - x ! Suc j"
    by simp
  from nth_np_diff [OF assms(1)] have d2: "np_diff x ! Suc j = x ! Suc (Suc j) - x ! Suc j" .
  from eq have two: "2 * (x ! Suc (Suc j) - x ! Suc j) = x ! Suc (Suc j) - x ! j" by simp
  from gradient_interior_uniform [OF d1 d2, of f]
  show ?thesis unfolding two by simp
qed

lemma three_point_formula:
  fixes a b c u v w :: real
  assumes "a \<noteq> b" "b \<noteq> c" "a \<noteq> c"
  shows "- (c - b) / ((b - a) * ((b - a) + (c - b))) * u
         + ((c - b) - (b - a)) / ((b - a) * (c - b)) * v
         + (b - a) / ((c - b) * ((b - a) + (c - b))) * w
         = ((b - a)\<^sup>2 * w + ((c - b)\<^sup>2 - (b - a)\<^sup>2) * v - (c - b)\<^sup>2 * u)
           / ((b - a) * (c - b) * (c - a))"
proof -
  from assms have ne: "b - a \<noteq> 0" "c - b \<noteq> 0" "c - a \<noteq> 0" by simp_all
  have s: "(b - a) + (c - b) = c - a" by simp
  show ?thesis
    unfolding s using ne by (simp add: divide_simps power2_eq_square) (simp add: algebra_simps)
qed

subsection \<open>Elasticity and the script\<close>

lemma compute_elasticity_short:
  "length response < 2 \<Longrightarrow>
     compute_elasticity response adstocked
       = Inl (if length adstocked = length response then IndexError else ValueError)"
  by (simp add: compute_elasticity_def np_gradient_short)

lemma compute_elasticity_result:
  assumes len: "length adstocked = length response" and n: "2 \<le> length response"
  shows "\<exists>dy. np_gradient response adstocked = Inr dy \<and> length dy = length response
           \<and> compute_elasticity response adstocked
               = Inr (dy, map (\<lambda>i. if response ! i \<noteq> 0
                                      then dy ! i * (adstocked ! i / response ! i) else 0)
                               [0..<length response])"
proof -
  from np_gradient_facts [OF len n] obtain dy
    where "np_gradient response adstocked = Inr dy" "length dy = length response" by blast
  then show ?thesis by (simp add: compute_elasticity_def)
qed

lemma compute_elasticity_Inr:
  assumes "compute_elasticity response adstocked = Inr (slope, elasticity)"
  shows "length adstocked = length response \<and> 2 \<le> length response
         \<and> length slope = length response \<and> length elasticity = length response"
proof -
  from assms obtain dy where g: "np_gradient response adstocked = Inr dy"
    by (auto simp: compute_elasticity_def split: sum.splits)
  from np_gradient_Inr_lengths [OF g]
  have len: "length adstocked = length response" and n: "2 \<le> length response" by simp_all
  from np_gradient_facts [OF len n] g have "length dy = length response" by auto
  with assms g len n show ?thesis by (auto simp: compute_elasticity_def)
qed

lemma run_analysis_Inr:
  assumes "run_analysis spend h pen eff p = Inr r"
  shows "\<exists>response adstocked slope elasticity pA c d.
           compute_response_series spend h pen eff p = Inr (response, adstocked)
           \<and> compute_elasticity response adstocked = Inr (slope, elasticity)
           \<and> point_A pen eff p = Inr pA \<and> idx_C slope = Inr c \<and> idx_D slope = Inr d
           \<and> r = \<lparr>var_response = response, var_adstocked = adstocked, var_slope = slope,
                   var_elasticity = elasticity, var_point_A = pA,
                   var_point_C = (adstocked ! c, response ! c),
                   var_point_D = (adstocked ! d, response ! d)\<rparr>"
  using assms by (auto simp: run_analysis_def split: sum.splits prod.splits)

lemma run_analysis_short:
  assumes "length spend < 2"
  shows "run_analysis spend h pen eff p
           = Inl (if h = 0 \<or> (pen = 0 \<and> p < 0) then ZeroDivisionError else IndexError)"
proof (cases "compute_response_series spend h pen eff p")
  case (Inl e)
  then have "h = 0 \<or> (pen = 0 \<and> p < 0)" "e = ZeroDivisionError"
    by (auto simp: compute_response_series_eq Let_def split: if_splits)
  with Inl show ?thesis by (simp add: run_analysis_def)
next
  case (Inr ra)
  obtain response adstocked where ra: "ra = (response, adstocked)" by (cases ra)
  from Inr ra have ok: "\<not> (h = 0 \<or> (pen = 0 \<and> p < 0))"
    by (auto simp: compute_response_series_eq Let_def split: if_splits)
  from compute_response_series_lengths [of spend h pen eff p response adstocked] Inr ra assms
  have "length response < 2" "length adstocked = length response" by simp_all
  with compute_elasticity_short [of response adstocked]
  have "compute_elasticity response adstocked = Inl IndexError" by simp
  with Inr ra ok show ?thesis by (simp add: run_analysis_def)
qed

section \<open>The claims\<close>

subsection \<open>C1: the adstock recurrence\<close>

text \<open>
  C1. For every spend series \<open>s\<close> and every half-life \<open>> 0\<close> the adstock transform
  returns a series \<open>a\<close> of the length of \<open>s\<close> with \<open>a[0] = s[0]\<close> and
  \<open>a[i] = s[i] + decay * a[i-1]\<close> for \<open>1 \<le> i < len(s)\<close>, where
  \<open>decay = 0.5 ^ (1 / halfLife)\<close>; the empty series gives the empty series.
\<close>

theorem adstock_recurrence:
  assumes "0 < half_life"
  shows "\<exists>a. compute_adstock_series s half_life = Inr a
           \<and> length a = length s
           \<and> (s \<noteq> [] \<longrightarrow> a ! 0 = s ! 0)
           \<and> (\<forall>i. 1 \<le> i \<and> i < length s \<longrightarrow>
                  a ! i = s ! i + (1 / 2) powr (1 / half_life) * a ! (i - 1))
           \<and> (s = [] \<longrightarrow> a = [])"
proof -
  let ?d = "(1 / 2) powr (1 / half_life)"
  let ?a = "carry_scan ?d 0 s"
  from assms have run: "compute_adstock_series s half_life = Inr ?a"
    by (simp add: compute_adstock_series_scan)
  have len: "length ?a = length s"
    by (rule length_carry_scan)
  have first: "s \<noteq> [] \<longrightarrow> ?a ! 0 = s ! 0"
    by (simp add: carry_scan_first)
  have step: "\<forall>i. 1 \<le> i \<and> i < length s \<longrightarrow> ?a ! i = s ! i + ?d * ?a ! (i - 1)"
  proof (intro allI impI)
    fix i assume i: "1 \<le> i \<and> i < length s"
    then obtain j where j: "i = Suc j" by (cases i) auto
    with i have "Suc j < length s" by simp
    from carry_scan_step [OF this] j show "?a ! i = s ! i + ?d * ?a ! (i - 1)" by simp
  qed
  have empty: "s = [] \<longrightarrow> ?a = []" by simp
  from run len first step empty show ?thesis by blast
qed

theorem adstock_recurrence_witness:
  "(0::real) < 1 \<and> compute_adstock_series [4, 2, 0] 1 = Inr [4, 4, 2]"
proof -
  from adstock_recurrence [of 1 "[4, 2, 0]"]
  obtain a where a: "compute_adstock_series [4, 2, 0] 1 = Inr a"
    and len: "length a = 3"
    and first: "a ! 0 = 4"
    and step: "\<forall>i. 1 \<le> i \<and> i < 3 \<longrightarrow> a ! i = [4, 2, 0] ! i + (1 / 2) * a ! (i - 1)"
    by auto
  from step have "a ! 1 = 2 + (1 / 2) * a ! 0" by simp
  with first have a1: "a ! 1 = 4" by simp
  from step have "a ! 2 = 0 + (1 / 2) * a ! 1" by simp
  with a1 have a2: "a ! 2 = 2" by simp
  from len obtain x y z where "a = [x, y, z]"
    by (cases a; cases "tl a"; cases "tl (tl a)") auto
  with first a1 a2 have "a = [4, 4, 2]" by simp
  with a show ?thesis by simp
qed

subsection \<open>C2: a landmark that is not found\<close>

text \<open>
  C2. When no slope is below the threshold of Point C or of Point D, the analysis is to
  report a recoverable not-found condition and leave the series and Point A usable. The
  script does not. It looks Point C and then Point D up with an unguarded
  \<^verbatim>\<open>np.where(...)[0][0]\<close>; on two equal spends the slopes are \<open>[1/5, 1/5]\<close>, none is
  below half the maximum, the lookup of Point C raises \<^verbatim>\<open>IndexError\<close>, and that exception
  is all the run yields.
\<close>

theorem landmark_not_found_crash:
  "compute_response_series [1, 1] 1 1 1 1 = Inr ([1 / 2, 3 / 5], [1, 3 / 2])
   \<and> compute_elasticity [1 / 2, 3 / 5] [1, 3 / 2] = Inr ([1 / 5, 1 / 5], [2 / 5, 1 / 2])
   \<and> idx_C [1 / 5, 1 / 5] = Inl IndexError
   \<and> run_analysis [1, 1] 1 1 1 1 = Inl IndexError"
proof -
  have series: "compute_response_series [1, 1] 1 1 1 1 = Inr ([1 / 2, 3 / 5], [1, 3 / 2])"
    by (simp add: compute_response_series_eq float_pow_def)
  have deriv: "compute_elasticity [1 / 2, 3 / 5] [1, 3 / 2] = Inr ([1 / 5, 1 / 5], [2 / 5, 1 / 2])"
    by (simp add: compute_elasticity_def np_gradient_def np_diff_def gradient_uniform_def)
  have c: "idx_C [1 / 5, 1 / 5] = Inl IndexError"
    by (simp add: idx_C_def np_max_def first_where_def)
  have pA: "point_A 1 1 1 = Inr (1, 1 / 2)"
    by (simp add: point_A_def scalar_pow_def scalar_div_def float_pow_def)
  from series deriv c pA show ?thesis by (simp add: run_analysis_def)
qed

text \<open>
  The same holds for every run whose slopes never cross one of the two thresholds: the
  series and the slope have been computed, and the run ends in \<^verbatim>\<open>IndexError\<close>.
\<close>

lemma landmark_not_found_raises:
  assumes series: "compute_response_series spend h pen eff p = Inr (response, adstocked)"
    and deriv: "compute_elasticity response adstocked = Inr (slope, elasticity)"
    and pen: "0 < pen"
    and never: "(\<forall>i<length slope. \<not> slope ! i < Max (set slope) * (1 / 2))
                \<or> (\<forall>i<length slope. \<not> slope ! i < 1 / 100)"
  shows "(idx_C slope = Inl IndexError \<or> idx_D slope = Inl IndexError)
         \<and> run_analysis spend h pen eff p = Inl IndexError"
proof -
  from compute_elasticity_Inr [OF deriv] have ne: "slope \<noteq> []" by auto
  from point_A_value [OF pen] have pA: "point_A pen eff p = Inr (pen, eff * (1 / 2))" .
  from never show ?thesis
  proof
    assume "\<forall>i<length slope. \<not> slope ! i < Max (set slope) * (1 / 2)"
    then have "idx_C slope = Inl IndexError"
      by (simp add: idx_C_threshold [OF ne] first_where_none)
    with series deriv pA show ?thesis by (simp add: run_analysis_def)
  next
    assume "\<forall>i<length slope. \<not> slope ! i < 1 / 100"
    then have d: "idx_D slope = Inl IndexError"
      by (simp add: idx_D_def first_where_none)
    have "idx_C slope = Inl IndexError \<or> (\<exists>c. idx_C slope = Inr c)"
    proof (cases "idx_C slope")
      case (Inl e)
      then show ?thesis using first_where_error by (simp add: idx_C_threshold [OF ne])
    next
      case (Inr c)
      then show ?thesis by blast
    qed
    with series deriv pA d show ?thesis by (auto simp: run_analysis_def)
  qed
qed

lemma landmark_not_found_raises_example:
  "compute_response_series [1, 5 / 2, 11 / 2] 1 1 1 1 = Inr ([1 / 2, 3 / 4, 7 / 8], [1, 3, 7])
   \<and> compute_elasticity [1 / 2, 3 / 4, 7 / 8] [1, 3, 7]
       = Inr ([1 / 8, 3 / 32, 1 / 32], [1 / 4, 3 / 8, 1 / 4])
   \<and> idx_C [1 / 8, 3 / 32, 1 / 32] = Inr 2
   \<and> idx_D [1 / 8, 3 / 32, 1 / 32] = Inl IndexError
   \<and> run_analysis [1, 5 / 2, 11 / 2] 1 1 1 1 = Inl IndexError"
proof -
  have series: "compute_response_series [1, 5 / 2, 11 / 2] 1 1 1 1
                  = Inr ([1 / 2, 3 / 4, 7 / 8], [1, 3, 7])"
    by (simp add: compute_response_series_eq float_pow_def)
  have deriv: "compute_elasticity [1 / 2, 3 / 4, 7 / 8] [1, 3, 7]
                 = Inr ([1 / 8, 3 / 32, 1 / 32], [1 / 4, 3 / 8, 1 / 4])"
    by (simp add: compute_elasticity_def np_gradient_def np_diff_def gradient_nonuniform_def
        gradient_interior_def upt_rec)
  have c: "idx_C [1 / 8, 3 / 32, 1 / 32] = Inr 2"
    by (simp add: idx_C_def np_max_def first_where_def upt_rec)
  have never: "(\<forall>i<length [1 / 8, 3 / 32, 1 / 32 :: real].
                   \<not> [1 / 8, 3 / 32, 1 / 32] ! i < Max (set [1 / 8, 3 / 32, 1 / 32 :: real]) * (1 / 2))
               \<or> (\<forall>i<length [1 / 8, 3 / 32, 1 / 32 :: real]. \<not> [1 / 8, 3 / 32, 1 / 32 :: real] ! i < 1 / 100)"
    by (simp add: nth_Cons' less_Suc_eq)
  from landmark_not_found_raises [OF series deriv _ never] c series deriv
  show ?thesis by simp
qed

subsection \<open>C3: fewer than two samples\<close>

text \<open>
  C3. With fewer than two samples the analysis is to fail with an insufficient-data error,
  reported before the derivative is computed. The code has no such check:
  \<open>compute_elasticity\<close> passes the series to \<^verbatim>\<open>np.gradient\<close> whatever their length. On
  the single spend \<open>50\<close> the series have one element each, \<^verbatim>\<open>np.gradient\<close> fails on
  \<^verbatim>\<open>diffx[0]\<close> with \<^verbatim>\<open>IndexError\<close>, and that exception, raised inside the derivative
  routine, is all the run yields.
\<close>

theorem single_sample_crash:
  "compute_response_series [50] 1 50 1 1 = Inr ([1 / 2], [50])
   \<and> compute_elasticity [1 / 2] [50] = Inl IndexError
   \<and> run_analysis [50] 1 50 1 1 = Inl IndexError"
proof -
  have series: "compute_response_series [50] 1 50 1 1 = Inr ([1 / 2], [50])"
    by (simp add: compute_response_series_eq float_pow_def)
  have deriv: "compute_elasticity [1 / 2] [50] = Inl IndexError"
    by (simp add: compute_elasticity_def np_gradient_def np_diff_def)
  from series deriv show ?thesis by (simp add: run_analysis_def)
qed

text \<open>
  The same for every series of fewer than two samples: no slope and no elasticity is
  returned, and with the parameters in the ranges of the script's number inputs the run
  ends in numpy's exception.
\<close>

lemma short_series_raises:
  "(length response < 2 \<longrightarrow>
      compute_elasticity response adstocked
        = Inl (if length adstocked = length response then IndexError else ValueError))
   \<and> (length spend < 2 \<and> 1 / 10 \<le> h \<and> h \<le> 100 \<and> 1 \<le> pen \<and> pen \<le> 1000000
        \<and> 1 / 10 \<le> p \<and> p \<le> 5 \<longrightarrow>
        run_analysis spend h pen eff p = Inl IndexError)"
proof (intro conjI impI)
  assume "length response < 2"
  then show "compute_elasticity response adstocked
               = Inl (if length adstocked = length response then IndexError else ValueError)"
    by (rule compute_elasticity_short)
next
  assume a: "length spend < 2 \<and> 1 / 10 \<le> h \<and> h \<le> 100 \<and> 1 \<le> pen \<and> pen \<le> 1000000
             \<and> 1 / 10 \<le> p \<and> p \<le> 5"
  then have "length spend < 2" and "h \<noteq> 0" and "pen \<noteq> 0" by simp_all
  with run_analysis_short [of spend h pen eff p]
  show "run_analysis spend h pen eff p = Inl IndexError" by simp
qed

lemma short_series_raises_example:
  "length [50 :: real] < 2
   \<and> compute_elasticity [50] [50] = Inl IndexError
   \<and> run_analysis [50] 7 2000 500 (1 / 2) = Inl IndexError"
  using short_series_raises [where response = "[50]" and adstocked = "[50]"
      and spend = "[50]" and h = 7 and pen = 2000 and eff = 500 and p = "1 / 2"]
  by simp

subsection \<open>C4: parameters are not validated\<close>

text \<open>
  C4, as the code has it. With \<open>halfLife = 0\<close> the computation fails before any series is
  computed, with the \<^verbatim>\<open>ZeroDivisionError\<close> of \<^verbatim>\<open>1 / half_life\<close>. The effectiveness is not
  checked: with the half-life, the penetration and the exponent within the ranges of the
  script's number inputs (\<open>[0.1, 100]\<close>, \<open>[1, 1000000]\<close>, \<open>[0.1, 5]\<close>) the computation
  proceeds for every effectiveness, also one \<open>\<le> 0\<close>, and returns the adstocked series and
  the response, which is the effectiveness times the saturated series, both of the length
  of the input.
\<close>

theorem effectiveness_not_validated:
  "compute_response_series spend 0 penetration effectiveness p = Inl ZeroDivisionError
   \<and> (1 / 10 \<le> half_life \<and> half_life \<le> 100 \<and> 1 \<le> penetration \<and> penetration \<le> 1000000
        \<and> 1 / 10 \<le> p \<and> p \<le> 5 \<longrightarrow>
       (\<exists>adstocked saturated.
           compute_adstock_series spend half_life = Inr adstocked
           \<and> saturation_function adstocked penetration p = Inr saturated
           \<and> compute_response_series spend half_life penetration effectiveness p
               = Inr (map (\<lambda>v. effectiveness * v) saturated, adstocked)
           \<and> length adstocked = length spend \<and> length saturated = length spend))"
proof (intro conjI impI)
  show "compute_response_series spend 0 penetration effectiveness p = Inl ZeroDivisionError"
    by (simp add: compute_response_series_def compute_adstock_series_def)
next
  assume range: "1 / 10 \<le> half_life \<and> half_life \<le> 100 \<and> 1 \<le> penetration
                 \<and> penetration \<le> 1000000 \<and> 1 / 10 \<le> p \<and> p \<le> 5"
  then have h: "half_life \<noteq> 0" and pen: "0 < penetration" by simp_all
  let ?a = "carry_scan ((1 / 2) powr (1 / half_life)) 0 spend"
  let ?s = "map (\<lambda>x. float_pow x p / (float_pow x p + penetration powr p)) ?a"
  from h have a: "compute_adstock_series spend half_life = Inr ?a"
    by (rule compute_adstock_series_scan)
  from pen have s: "saturation_function ?a penetration p = Inr ?s"
    by (rule saturation_function_pos)
  from a s have r: "compute_response_series spend half_life penetration effectiveness p
                      = Inr (map (\<lambda>v. effectiveness * v) ?s, ?a)"
    by (simp add: compute_response_series_def)
  have l: "length ?a = length spend" "length ?s = length spend"
    by (simp_all add: length_carry_scan)
  from a s r l
  show "\<exists>adstocked saturated.
           compute_adstock_series spend half_life = Inr adstocked
           \<and> saturation_function adstocked penetration p = Inr saturated
           \<and> compute_response_series spend half_life penetration effectiveness p
               = Inr (map (\<lambda>v. effectiveness * v) saturated, adstocked)
           \<and> length adstocked = length spend \<and> length saturated = length spend"
    by - (rule exI [of _ ?a], rule exI [of _ ?s], intro conjI)
qed

theorem effectiveness_not_validated_witness:
  "compute_response_series [1] 0 1 1 1 = Inl ZeroDivisionError
   \<and> (1 / 10 :: real) \<le> 1 \<and> (1 :: real) \<le> 100 \<and> (1 :: real) \<le> 1000000 \<and> (1 :: real) \<le> 5
   \<and> compute_adstock_series [3, 5] 1 = Inr [3, 13 / 2]
   \<and> saturation_function [3, 13 / 2] 1 1 = Inr [3 / 4, 13 / 15]
   \<and> compute_response_series [3, 5] 1 1 (- 2) 1 = Inr ([- 3 / 2, - 26 / 15], [3, 13 / 2])"
proof -
  have a: "compute_adstock_series [3, 5] 1 = Inr [3, 13 / 2]"
    by (simp add: compute_adstock_series_scan)
  have s: "saturation_function [3, 13 / 2] 1 1 = Inr [3 / 4, 13 / 15]"
    by (simp add: saturation_function_pos float_pow_def)
  from effectiveness_not_validated [where spend = "[1]" and penetration = 1 and effectiveness = 1
      and p = 1 and half_life = 1]
  have z: "compute_response_series [1] 0 1 1 1 = Inl ZeroDivisionError" by simp
  from effectiveness_not_validated [where spend = "[3, 5]" and penetration = 1
      and effectiveness = "- 2" and p = 1 and half_life = 1]
  obtain adstocked saturated where "compute_adstock_series [3, 5] 1 = Inr adstocked"
    and "saturation_function adstocked 1 1 = Inr saturated"
    and "compute_response_series [3, 5] 1 1 (- 2) 1
           = Inr (map (\<lambda>v. - 2 * v) saturated, adstocked)"
    by auto
  with a s have "compute_response_series [3, 5] 1 1 (- 2) 1 = Inr ([- 3 / 2, - 26 / 15], [3, 13 / 2])"
    by auto
  with a s z show ?thesis by simp
qed

text \<open>
  C4 as stated asks for an error, and no series, whenever one of the four parameters is
  \<open>\<le> 0\<close>. Both series are returned with \<open>effectiveness = -1\<close>, with \<open>halfLife = -1\<close>,
  with \<open>penetration = 0\<close> and with the exponent \<open>0\<close>.
\<close>

theorem invalid_parameter_counterexample:
  "compute_response_series [1] 1 1 (- 1) 1 = Inr ([- 1 / 2], [1])
   \<and> compute_response_series [1, 1] (- 1) 1 1 1 = Inr ([1 / 2, 3 / 4], [1, 3])
   \<and> compute_response_series [1] 1 0 1 1 = Inr ([1], [1])
   \<and> compute_response_series [1] 1 1 1 0 = Inr ([1 / 2], [1])"
  by (simp add: compute_response_series_eq float_pow_def powr_minus Let_def)

subsection \<open>C5: the landmarks are first indices\<close>

text \<open>
  C5. Whenever some slope is below the threshold of a landmark, that landmark is to be
  taken at the first such index: Point C where the slope is first below half the maximal
  slope, Point D where it is first below \<open>0.01\<close>. The script reaches the lookup of
  Point D only when that of Point C has succeeded. On the spends \<open>[99, 149.5]\<close> both
  slopes are \<open>1/20000\<close>, below \<open>0.01\<close> from index \<open>0\<close> on, but none is below half the
  maximum: the lookup of Point C raises \<^verbatim>\<open>IndexError\<close> and no Point D is taken.
\<close>

theorem point_D_not_taken:
  "compute_response_series [99, 299 / 2] 1 1 1 1 = Inr ([99 / 100, 199 / 200], [99, 199])
   \<and> compute_elasticity [99 / 100, 199 / 200] [99, 199]
       = Inr ([1 / 20000, 1 / 20000], [1 / 200, 1 / 100])
   \<and> idx_D [1 / 20000, 1 / 20000] = Inr 0
   \<and> idx_C [1 / 20000, 1 / 20000] = Inl IndexError
   \<and> run_analysis [99, 299 / 2] 1 1 1 1 = Inl IndexError"
proof -
  have series: "compute_response_series [99, 299 / 2] 1 1 1 1
                  = Inr ([99 / 100, 199 / 200], [99, 199])"
    by (simp add: compute_response_series_eq float_pow_def)
  have deriv: "compute_elasticity [99 / 100, 199 / 200] [99, 199]
                 = Inr ([1 / 20000, 1 / 20000], [1 / 200, 1 / 100])"
    by (simp add: compute_elasticity_def np_gradient_def np_diff_def gradient_uniform_def)
  have d: "idx_D [1 / 20000, 1 / 20000] = Inr 0"
    by (simp add: idx_D_def first_where_def upt_rec)
  have c: "idx_C [1 / 20000, 1 / 20000] = Inl IndexError"
    by (simp add: idx_C_def np_max_def first_where_def)
  have pA: "point_A 1 1 1 = Inr (1, 1 / 2)"
    by (simp add: point_A_def scalar_pow_def scalar_div_def float_pow_def)
  from series deriv d c pA show ?thesis by (simp add: run_analysis_def)
qed

text \<open>
  Each lookup by itself does find the first index, with every earlier slope at or above
  the threshold; in a run that reaches the end, Point C and Point D are the pairs
  \<open>(adstocked[idx], response[idx])\<close> at these indices, which are within the series.
\<close>

lemma landmark_search_first_index:
  "((\<exists>i<length slope. slope ! i < Max (set slope) * (1 / 2)) \<longrightarrow>
      (\<exists>c. idx_C slope = Inr c \<and> c < length slope
            \<and> slope ! c < Max (set slope) * (1 / 2)
            \<and> (\<forall>k<c. Max (set slope) * (1 / 2) \<le> slope ! k)))
   \<and> ((\<exists>j<length slope. slope ! j < 1 / 100) \<longrightarrow>
      (\<exists>d. idx_D slope = Inr d \<and> d < length slope
            \<and> slope ! d < 1 / 100 \<and> (\<forall>k<d. 1 / 100 \<le> slope ! k)))
   \<and> (\<forall>r. run_analysis spend h pen eff p = Inr r \<longrightarrow>
      (\<exists>c d. idx_C (var_slope r) = Inr c \<and> idx_D (var_slope r) = Inr d
             \<and> c < length (var_adstocked r) \<and> d < length (var_adstocked r)
             \<and> length (var_response r) = length (var_adstocked r)
             \<and> length (var_slope r) = length (var_adstocked r)
             \<and> var_point_C r = (var_adstocked r ! c, var_response r ! c)
             \<and> var_point_D r = (var_adstocked r ! d, var_response r ! d)))"
proof (intro conjI impI allI)
  assume ex: "\<exists>i<length slope. slope ! i < Max (set slope) * (1 / 2)"
  then have ne: "slope \<noteq> []" by auto
  from first_where_exists [of slope "\<lambda>v. v < Max (set slope) * (1 / 2)"] ex
  obtain c where c: "first_where (\<lambda>v. v < Max (set slope) * (1 / 2)) slope = Inr c" by blast
  from first_where_found [OF c] c ne
  show "\<exists>c. idx_C slope = Inr c \<and> c < length slope
            \<and> slope ! c < Max (set slope) * (1 / 2)
            \<and> (\<forall>k<c. Max (set slope) * (1 / 2) \<le> slope ! k)"
    by (auto simp: idx_C_threshold not_less)
next
  assume ex: "\<exists>j<length slope. slope ! j < 1 / 100"
  from first_where_exists [of slope "\<lambda>v. v < 1 / 100"] ex
  obtain d where d: "first_where (\<lambda>v. v < 1 / 100) slope = Inr d" by blast
  from first_where_found [OF d] d
  show "\<exists>d. idx_D slope = Inr d \<and> d < length slope
            \<and> slope ! d < 1 / 100 \<and> (\<forall>k<d. 1 / 100 \<le> slope ! k)"
    by (auto simp: idx_D_def not_less)
next
  fix r assume "run_analysis spend h pen eff p = Inr r"
  from run_analysis_Inr [OF this] obtain response adstocked slope' elasticity pA c d
    where deriv: "compute_elasticity response adstocked = Inr (slope', elasticity)"
      and c: "idx_C slope' = Inr c" and d: "idx_D slope' = Inr d"
      and r: "r = \<lparr>var_response = response, var_adstocked = adstocked, var_slope = slope',
                   var_elasticity = elasticity, var_point_A = pA,
                   var_point_C = (adstocked ! c, response ! c),
                   var_point_D = (adstocked ! d, response ! d)\<rparr>"
    by blast
  from compute_elasticity_Inr [OF deriv]
  have len: "length adstocked = length response" "length slope' = length response"
    and ne: "slope' \<noteq> []" by auto
  from c ne have "first_where (\<lambda>v. v < Max (set slope') * (1 / 2)) slope' = Inr c"
    by (simp add: idx_C_threshold)
  from first_where_found [OF this] have c_lt: "c < length slope'" by simp
  from d have "first_where (\<lambda>v. v < 1 / 100) slope' = Inr d" by (simp add: idx_D_def)
  from first_where_found [OF this] have d_lt: "d < length slope'" by simp
  from c d c_lt d_lt len r
  show "\<exists>c d. idx_C (var_slope r) = Inr c \<and> idx_D (var_slope r) = Inr d
             \<and> c < length (var_adstocked r) \<and> d < length (var_adstocked r)
             \<and> length (var_response r) = length (var_adstocked r)
             \<and> length (var_slope r) = length (var_adstocked r)
             \<and> var_point_C r = (var_adstocked r ! c, var_response r ! c)
             \<and> var_point_D r = (var_adstocked r ! d, var_response r ! d)"
    by simp
qed

lemma landmark_search_first_index_example:
  "(\<exists>i<length [1 / 8, 3 / 32, 9 / 320, 1 / 320 :: real].
       [1 / 8, 3 / 32, 9 / 320, 1 / 320 :: real] ! i
         < Max (set [1 / 8, 3 / 32, 9 / 320, 1 / 320 :: real]) * (1 / 2))
   \<and> (\<exists>j<length [1 / 8, 3 / 32, 9 / 320, 1 / 320 :: real].
       [1 / 8, 3 / 32, 9 / 320, 1 / 320 :: real] ! j < 1 / 100)
   \<and> idx_C [1 / 8, 3 / 32, 9 / 320, 1 / 320] = Inr 2
   \<and> idx_D [1 / 8, 3 / 32, 9 / 320, 1 / 320] = Inr 3
   \<and> run_analysis [1, 5 / 2, 11 / 2, 71 / 2] 1 1 1 1
       = Inr \<lparr>var_response = [1 / 2, 3 / 4, 7 / 8, 39 / 40], var_adstocked = [1, 3, 7, 39],
              var_slope = [1 / 8, 3 / 32, 9 / 320, 1 / 320],
              var_elasticity = [1 / 4, 3 / 8, 9 / 40, 1 / 8],
              var_point_A = (1, 1 / 2), var_point_C = (7, 7 / 8), var_point_D = (39, 39 / 40)\<rparr>"
proof -
  let ?S = "[1 / 8, 3 / 32, 9 / 320, 1 / 320 :: real]"
  have exC: "\<exists>i<length ?S. ?S ! i < Max (set ?S) * (1 / 2)"
    by (rule exI [of _ 2]) simp
  have exD: "\<exists>j<length ?S. ?S ! j < 1 / 100"
    by (rule exI [of _ 3]) simp
  have series: "compute_response_series [1, 5 / 2, 11 / 2, 71 / 2] 1 1 1 1
                  = Inr ([1 / 2, 3 / 4, 7 / 8, 39 / 40], [1, 3, 7, 39])"
    by (simp add: compute_response_series_eq float_pow_def)
  have deriv: "compute_elasticity [1 / 2, 3 / 4, 7 / 8, 39 / 40] [1, 3, 7, 39]
                 = Inr (?S, [1 / 4, 3 / 8, 9 / 40, 1 / 8])"
    by (simp add: compute_elasticity_def np_gradient_def np_diff_def gradient_nonuniform_def
        gradient_interior_def upt_rec)
  have pA: "point_A 1 1 1 = Inr (1, 1 / 2)"
    by (simp add: point_A_def scalar_pow_def scalar_div_def float_pow_def)
  from landmark_search_first_index [of ?S "[1, 5 / 2, 11 / 2, 71 / 2]" 1 1 1 1] exC exD
  obtain c d where c: "idx_C ?S = Inr c" "c < length ?S" "?S ! c < Max (set ?S) * (1 / 2)"
      "\<forall>k<c. Max (set ?S) * (1 / 2) \<le> ?S ! k"
    and d: "idx_D ?S = Inr d" "d < length ?S" "?S ! d < 1 / 100" "\<forall>k<d. 1 / 100 \<le> ?S ! k"
    by blast
  have c2: "c = 2"
  proof -
    have "\<not> Max (set ?S) * (1 / 2) \<le> ?S ! 2" by simp
    with c(4) have "\<not> 2 < c" by blast
    moreover have "c \<noteq> 0"
    proof
      assume "c = 0" with c(3) show False by simp
    qed
    moreover have "c \<noteq> 1"
    proof
      assume "c = 1" with c(3) show False by simp
    qed
    ultimately show ?thesis by simp
  qed
  have d3: "d = 3"
  proof -
    have "d \<noteq> 0"
    proof
      assume "d = 0" with d(3) show False by simp
    qed
    moreover have "d \<noteq> 1"
    proof
      assume "d = 1" with d(3) show False by simp
    qed
    moreover have "d \<noteq> 2"
    proof
      assume "d = 2" with d(3) show False by simp
    qed
    ultimately show ?thesis using d(2) by simp
  qed
  from c(1) c2 have ic: "idx_C ?S = Inr 2" by simp
  from d(1) d3 have id: "idx_D ?S = Inr 3" by simp
  from series deriv pA ic id
  have "run_analysis [1, 5 / 2, 11 / 2, 71 / 2] 1 1 1 1
       = Inr \<lparr>var_response = [1 / 2, 3 / 4, 7 / 8, 39 / 40], var_adstocked = [1, 3, 7, 39],
              var_slope = ?S, var_elasticity = [1 / 4, 3 / 8, 9 / 40, 1 / 8],
              var_point_A = (1, 1 / 2), var_point_C = (7, 7 / 8), var_point_D = (39, 39 / 40)\<rparr>"
    by (simp add: run_analysis_def)
  with exC exD ic id show ?thesis by blast
qed

subsection \<open>C6: the saturation midpoint and Point A\<close>

text \<open>
  C6. For \<open>penetration > 0\<close> and \<open>p > 0\<close> the saturation of \<open>penetration\<close> itself is
  \<open>1/2\<close>, and Point A is \<open>(penetration, effectiveness * 1/2)\<close>.
\<close>

theorem saturation_midpoint:
  assumes "0 < pen" and "0 < p"
  shows "saturation_function [pen] pen p = Inr [1 / 2]
         \<and> point_A pen eff p = Inr (pen, eff * (1 / 2))"
proof -
  from assms have q: "0 < pen powr p" by simp
  then have "pen powr p / (pen powr p + pen powr p) = 1 / 2" by (simp add: field_simps)
  with assms have "saturation_function [pen] pen p = Inr [1 / 2]"
    by (simp add: saturation_function_pos float_pow_def)
  with point_A_value [OF assms(1)] show ?thesis by simp
qed

theorem saturation_midpoint_witness:
  "(0::real) < 2000 \<and> (0::real) < 1 / 2
   \<and> saturation_function [2000] 2000 (1 / 2) = Inr [1 / 2]
   \<and> point_A 2000 500 (1 / 2) = Inr (2000, 250)"
  using saturation_midpoint [of 2000 "1 / 2" 500] by simp

subsection \<open>C7: elasticity and its convention at zero response\<close>

text \<open>
  C7. For two series of equal length \<open>\<ge> 2\<close>, \<open>compute_elasticity\<close> returns the slope and
  the elasticity, both of that length, and at every index the elasticity is
  \<open>slope[i] * (adstocked[i] / response[i])\<close> where \<open>response[i] \<noteq> 0\<close> and \<open>0\<close> where
  \<open>response[i] = 0\<close>, whatever the slope there.
\<close>

theorem elasticity_convention:
  assumes "length adstocked = length response" and "2 \<le> length response"
  shows "\<exists>dy elasticity.
           compute_elasticity response adstocked = Inr (dy, elasticity)
           \<and> length dy = length response \<and> length elasticity = length response
           \<and> (\<forall>i<length response.
                 elasticity ! i = (if response ! i \<noteq> 0
                                   then dy ! i * (adstocked ! i / response ! i) else 0))"
proof -
  from compute_elasticity_result [OF assms] obtain dy
    where dy: "length dy = length response"
      and run: "compute_elasticity response adstocked
                  = Inr (dy, map (\<lambda>i. if response ! i \<noteq> 0
                                        then dy ! i * (adstocked ! i / response ! i) else 0)
                                 [0..<length response])"
    by blast
  let ?el = "map (\<lambda>i. if response ! i \<noteq> 0
                        then dy ! i * (adstocked ! i / response ! i) else 0)
                 [0..<length response]"
  have "length ?el = length response" by simp
  moreover have "\<forall>i<length response.
      ?el ! i = (if response ! i \<noteq> 0 then dy ! i * (adstocked ! i / response ! i) else 0)"
    by simp
  ultimately show ?thesis using run dy
    by - (rule exI [of _ dy], rule exI [of _ ?el], intro conjI)
qed

theorem elasticity_convention_witness:
  "length [0, 1, 3 :: real] = length [0, 1, 2 :: real] \<and> 2 \<le> length [0, 1, 2 :: real]
   \<and> compute_elasticity [0, 1, 2] [0, 1, 3] = Inr ([1, 5 / 6, 1 / 2], [0, 5 / 6, 3 / 4])"
proof -
  have run: "compute_elasticity [0, 1, 2] [0, 1, 3] = Inr ([1, 5 / 6, 1 / 2], [0, 5 / 6, 3 / 4])"
    by (simp add: compute_elasticity_def np_gradient_def np_diff_def gradient_nonuniform_def
        gradient_interior_def upt_rec)
  from elasticity_convention [of "[0, 1, 3]" "[0, 1, 2]"] run show ?thesis by simp
qed

subsection \<open>C8: the slope is numpy's gradient\<close>

text \<open>
  C8, as the code has it. For two series of equal length \<open>\<ge> 2\<close> the slope is
  \<^verbatim>\<open>np.gradient(response, adstocked)\<close>: a one-sided difference quotient at each of the two
  boundary samples and, at an interior sample with the spacings \<open>hs = x[i] - x[i-1]\<close> and
  \<open>hd = x[i+1] - x[i]\<close>, the second-order estimate for unequal spacing
  \<open>(hs\<^sup>2 f[i+1] + (hd\<^sup>2 - hs\<^sup>2) f[i] - hd\<^sup>2 f[i-1]) / (hs hd (hs + hd))\<close>. Where the two
  spacings are equal this is the central difference
  \<open>(f[i+1] - f[i-1]) / (x[i+1] - x[i-1])\<close>. Each formula is stated where its divisors are
  not zero.
\<close>

theorem slope_is_numpy_gradient:
  assumes len: "length adstocked = length response" and n: "2 \<le> length response"
  shows "\<exists>slope elasticity.
     compute_elasticity response adstocked = Inr (slope, elasticity)
   \<and> length slope = length response
   \<and> (adstocked ! 0 \<noteq> adstocked ! 1 \<longrightarrow>
        slope ! 0 = (response ! 1 - response ! 0) / (adstocked ! 1 - adstocked ! 0))
   \<and> (adstocked ! (length response - 2) \<noteq> adstocked ! (length response - 1) \<longrightarrow>
        slope ! (length response - 1)
          = (response ! (length response - 1) - response ! (length response - 2))
            / (adstocked ! (length response - 1) - adstocked ! (length response - 2)))
   \<and> (\<forall>i. 0 < i \<and> i < length response - 1
            \<and> adstocked ! (i - 1) \<noteq> adstocked ! i \<and> adstocked ! i \<noteq> adstocked ! (i + 1)
            \<and> adstocked ! (i - 1) \<noteq> adstocked ! (i + 1) \<longrightarrow>
        slope ! i
          = ((adstocked ! i - adstocked ! (i - 1))\<^sup>2 * response ! (i + 1)
             + ((adstocked ! (i + 1) - adstocked ! i)\<^sup>2
                - (adstocked ! i - adstocked ! (i - 1))\<^sup>2) * response ! i
             - (adstocked ! (i + 1) - adstocked ! i)\<^sup>2 * response ! (i - 1))
            / ((adstocked ! i - adstocked ! (i - 1)) * (adstocked ! (i + 1) - adstocked ! i)
               * (adstocked ! (i + 1) - adstocked ! (i - 1))))
   \<and> (\<forall>i. 0 < i \<and> i < length response - 1
            \<and> adstocked ! i \<noteq> adstocked ! (i + 1)
            \<and> adstocked ! i - adstocked ! (i - 1) = adstocked ! (i + 1) - adstocked ! i \<longrightarrow>
        slope ! i = (response ! (i + 1) - response ! (i - 1))
                    / (adstocked ! (i + 1) - adstocked ! (i - 1)))"
proof -
  let ?n = "length response"
  from np_gradient_facts [OF len n] obtain dy
    where g: "np_gradient response adstocked = Inr dy"
      and l: "length dy = ?n"
      and first: "dy ! 0 = (response ! 1 - response ! 0) / (adstocked ! 1 - adstocked ! 0)"
      and last: "dy ! (?n - 1) = (response ! (?n - 1) - response ! (?n - 2))
                                  / (adstocked ! (?n - 1) - adstocked ! (?n - 2))"
      and inner: "\<forall>i. 0 < i \<and> i < ?n - 1 \<longrightarrow> dy ! i = gradient_interior response (np_diff adstocked) i"
    by blast
  let ?el = "map (\<lambda>i. if response ! i \<noteq> 0
                        then dy ! i * (adstocked ! i / response ! i) else 0) [0..<?n]"
  from g have run: "compute_elasticity response adstocked = Inr (dy, ?el)"
    by (simp add: compute_elasticity_def)
  have general: "dy ! i
          = ((adstocked ! i - adstocked ! (i - 1))\<^sup>2 * response ! (i + 1)
             + ((adstocked ! (i + 1) - adstocked ! i)\<^sup>2
                - (adstocked ! i - adstocked ! (i - 1))\<^sup>2) * response ! i
             - (adstocked ! (i + 1) - adstocked ! i)\<^sup>2 * response ! (i - 1))
            / ((adstocked ! i - adstocked ! (i - 1)) * (adstocked ! (i + 1) - adstocked ! i)
               * (adstocked ! (i + 1) - adstocked ! (i - 1)))"
    if i: "0 < i" "i < ?n - 1"
      and ne: "adstocked ! (i - 1) \<noteq> adstocked ! i" "adstocked ! i \<noteq> adstocked ! (i + 1)"
              "adstocked ! (i - 1) \<noteq> adstocked ! (i + 1)"
    for i
  proof -
    from i obtain j where j: "i = Suc j" by (cases i) auto
    with i len have jj: "Suc (Suc j) < length adstocked" by simp
    from inner i have "dy ! i = gradient_interior response (np_diff adstocked) i" by simp
    also from gradient_interior_Suc [OF jj, of response] j
    have "\<dots> = - (adstocked ! Suc (Suc j) - adstocked ! Suc j)
              / ((adstocked ! Suc j - adstocked ! j)
                 * ((adstocked ! Suc j - adstocked ! j) + (adstocked ! Suc (Suc j) - adstocked ! Suc j)))
              * response ! j
          + ((adstocked ! Suc (Suc j) - adstocked ! Suc j) - (adstocked ! Suc j - adstocked ! j))
              / ((adstocked ! Suc j - adstocked ! j) * (adstocked ! Suc (Suc j) - adstocked ! Suc j))
              * response ! Suc j
          + (adstocked ! Suc j - adstocked ! j)
              / ((adstocked ! Suc (Suc j) - adstocked ! Suc j)
                 * ((adstocked ! Suc j - adstocked ! j) + (adstocked ! Suc (Suc j) - adstocked ! Suc j)))
            * response ! Suc (Suc j)"
      by simp
    also from ne j have "\<dots> =
        ((adstocked ! Suc j - adstocked ! j)\<^sup>2 * response ! Suc (Suc j)
         + ((adstocked ! Suc (Suc j) - adstocked ! Suc j)\<^sup>2
            - (adstocked ! Suc j - adstocked ! j)\<^sup>2) * response ! Suc j
         - (adstocked ! Suc (Suc j) - adstocked ! Suc j)\<^sup>2 * response ! j)
        / ((adstocked ! Suc j - adstocked ! j) * (adstocked ! Suc (Suc j) - adstocked ! Suc j)
           * (adstocked ! Suc (Suc j) - adstocked ! j))"
      by (intro three_point_formula) simp_all
    finally show ?thesis using j by simp
  qed
  have central: "dy ! i = (response ! (i + 1) - response ! (i - 1))
                          / (adstocked ! (i + 1) - adstocked ! (i - 1))"
    if i: "0 < i" "i < ?n - 1"
      and eq: "adstocked ! i - adstocked ! (i - 1) = adstocked ! (i + 1) - adstocked ! i"
    for i
  proof -
    from i obtain j where j: "i = Suc j" by (cases i) auto
    with i len have jj: "Suc (Suc j) < length adstocked" by simp
    from eq j have eq': "adstocked ! Suc j - adstocked ! j = adstocked ! Suc (Suc j) - adstocked ! Suc j"
      by simp
    from inner i have "dy ! i = gradient_interior response (np_diff adstocked) i" by simp
    with gradient_interior_central [OF jj eq', of response] j show ?thesis by simp
  qed
  show ?thesis
  proof (rule exI [of _ dy], rule exI [of _ ?el], intro conjI allI impI)
    show "compute_elasticity response adstocked = Inr (dy, ?el)" by (rule run)
    show "length dy = ?n" by (rule l)
    show "dy ! 0 = (response ! 1 - response ! 0) / (adstocked ! 1 - adstocked ! 0)" by (rule first)
    show "dy ! (?n - 1) = (response ! (?n - 1) - response ! (?n - 2))
                           / (adstocked ! (?n - 1) - adstocked ! (?n - 2))" by (rule last)
  next
    fix i
    assume "0 < i \<and> i < ?n - 1
            \<and> adstocked ! (i - 1) \<noteq> adstocked ! i \<and> adstocked ! i \<noteq> adstocked ! (i + 1)
            \<and> adstocked ! (i - 1) \<noteq> adstocked ! (i + 1)"
    then show "dy ! i
          = ((adstocked ! i - adstocked ! (i - 1))\<^sup>2 * response ! (i + 1)
             + ((adstocked ! (i + 1) - adstocked ! i)\<^sup>2
                - (adstocked ! i - adstocked ! (i - 1))\<^sup>2) * response ! i
             - (adstocked ! (i + 1) - adstocked ! i)\<^sup>2 * response ! (i - 1))
            / ((adstocked ! i - adstocked ! (i - 1)) * (adstocked ! (i + 1) - adstocked ! i)
               * (adstocked ! (i + 1) - adstocked ! (i - 1)))"
      using general [of i] by blast
  next
    fix i
    assume "0 < i \<and> i < ?n - 1
            \<and> adstocked ! i \<noteq> adstocked ! (i + 1)
            \<and> adstocked ! i - adstocked ! (i - 1) = adstocked ! (i + 1) - adstocked ! i"
    then show "dy ! i = (response ! (i + 1) - response ! (i - 1))
                        / (adstocked ! (i + 1) - adstocked ! (i - 1))"
      using central [of i] by blast
  qed
qed

theorem slope_is_numpy_gradient_witness:
  "length [0, 1, 2, 4 :: real] = length [0, 1, 4, 6 :: real] \<and> 2 \<le> length [0, 1, 4, 6 :: real]
   \<and> compute_elasticity [0, 1, 4, 6] [0, 1, 2, 4]
       = Inr ([1, 2, 7 / 3, 1], [0, 2, 7 / 6, 2 / 3])"
proof -
  have run: "compute_elasticity [0, 1, 4, 6] [0, 1, 2, 4]
               = Inr ([1, 2, 7 / 3, 1], [0, 2, 7 / 6, 2 / 3])"
    by (simp add: compute_elasticity_def np_gradient_def np_diff_def gradient_nonuniform_def
        gradient_interior_def upt_rec)
  from slope_is_numpy_gradient [of "[0, 1, 2, 4]" "[0, 1, 4, 6]"] run show ?thesis by simp
qed

text \<open>
  C8 as stated gives the central difference at every interior sample. With the spacings
  \<open>1\<close> and \<open>2\<close> the interior slope is \<open>3/2\<close>, the central difference \<open>1\<close>.
\<close>

theorem central_difference_counterexample:
  "compute_elasticity [0, 2, 3] [0, 1, 3] = Inr ([2, 3 / 2, 1 / 2], [0, 3 / 4, 1 / 2])
   \<and> ([2, 3 / 2, 1 / 2] ! 1 :: real) \<noteq> ([0, 2, 3] ! 2 - [0, 2, 3] ! 0) / ([0, 1, 3] ! 2 - [0, 1, 3] ! 0)"
  by (simp add: compute_elasticity_def np_gradient_def np_diff_def gradient_nonuniform_def
      gradient_interior_def upt_rec)

subsection \<open>C9: saturation is monotone\<close>

text \<open>
  C9. For \<open>penetration > 0\<close> and \<open>p > 0\<close> the saturation function
  \<open>f(x) = x^p / (x^p + penetration^p)\<close> is non-decreasing on non-negative inputs:
  \<open>0 \<le> x1 \<le> x2\<close> gives \<open>f(x1) \<le> f(x2)\<close>.
\<close>

theorem saturation_monotone:
  assumes "0 < pen" and "0 < p" and "0 \<le> x1" and "x1 \<le> x2"
  shows "\<exists>y1 y2. saturation_function [x1, x2] pen p = Inr [y1, y2]
           \<and> y1 = x1 powr p / (x1 powr p + pen powr p)
           \<and> y2 = x2 powr p / (x2 powr p + pen powr p)
           \<and> y1 \<le> y2"
proof -
  let ?t1 = "x1 powr p" and ?t2 = "x2 powr p" and ?c = "pen powr p"
  from assms have c: "0 < ?c" by simp
  have t1: "0 \<le> ?t1" by simp
  from assms have le: "?t1 \<le> ?t2" by (intro powr_mono2) simp_all
  from t1 le have t2: "0 \<le> ?t2" by simp
  from t1 c have pos1: "0 < ?t1 + ?c" by (rule add_nonneg_pos)
  from t2 c have pos2: "0 < ?t2 + ?c" by (rule add_nonneg_pos)
  note pos = pos1 pos2
  have "?t1 * (?t2 + ?c) \<le> ?t2 * (?t1 + ?c)"
  proof -
    from le c have "?t1 * ?c \<le> ?t2 * ?c" by (simp add: mult_right_mono)
    then show ?thesis by (simp add: algebra_simps)
  qed
  with pos have mono: "?t1 / (?t1 + ?c) \<le> ?t2 / (?t2 + ?c)"
    by (simp add: frac_le_eq pos_divide_le_eq pos_le_divide_eq field_simps)
  from assms have "saturation_function [x1, x2] pen p
                     = Inr [?t1 / (?t1 + ?c), ?t2 / (?t2 + ?c)]"
    by (simp add: saturation_function_pos float_pow_def)
  with mono show ?thesis by blast
qed

theorem saturation_monotone_witness:
  "(0::real) < 1 \<and> (0::real) \<le> 0 \<and> (0::real) \<le> 1
   \<and> saturation_function [0, 1] 1 1 = Inr [0, 1 / 2]"
proof -
  from saturation_monotone [of 1 1 0 1]
  obtain y1 y2 where "saturation_function [0, 1] 1 1 = Inr [y1, y2]"
    and "y1 = 0 powr 1 / (0 powr 1 + 1 powr 1)"
    and "y2 = 1 powr 1 / (1 powr 1 + 1 powr (1::real))"
    by auto
  then show ?thesis by simp
qed

subsection \<open>C10: adstock dominates spend\<close>

text \<open>
  C10. For a spend series of non-negative numbers and a half-life \<open>> 0\<close>, every adstocked
  value is at least the spend at its index, which is at least \<open>0\<close>; a series of zeros gives
  a series of zeros.
\<close>

theorem adstock_dominates_spend:
  assumes "0 < half_life" and "\<forall>x\<in>set s. 0 \<le> x"
  shows "\<exists>a. compute_adstock_series s half_life = Inr a
           \<and> length a = length s
           \<and> (\<forall>i<length s. 0 \<le> s ! i \<and> s ! i \<le> a ! i)
           \<and> ((\<forall>x\<in>set s. x = 0) \<longrightarrow> a = replicate (length s) 0)"
proof -
  let ?d = "(1 / 2) powr (1 / half_life)"
  let ?a = "carry_scan ?d 0 s"
  from assms(1) have run: "compute_adstock_series s half_life = Inr ?a"
    by (simp add: compute_adstock_series_scan)
  have d: "0 \<le> ?d" by simp
  have dom: "\<forall>i<length s. 0 \<le> s ! i \<and> s ! i \<le> ?a ! i"
  proof (intro allI impI conjI)
    fix i assume i: "i < length s"
    with assms(2) show "0 \<le> s ! i" by simp
    from carry_scan_dominates [OF d _ assms(2) i] show "s ! i \<le> ?a ! i" by simp
  qed
  have zero: "(\<forall>x\<in>set s. x = 0) \<longrightarrow> ?a = replicate (length s) 0"
    by (simp add: carry_scan_zero)
  from run dom zero show ?thesis by (simp add: length_carry_scan)
qed

theorem adstock_dominates_spend_witness:
  "(0::real) < 1 \<and> (0::real) \<le> 4 \<and> (0::real) \<le> 2 \<and> (0::real) \<le> 0
   \<and> compute_adstock_series [0, 0] 1 = Inr [0, 0]
   \<and> (\<exists>a. compute_adstock_series [4, 2, 0] 1 = Inr a \<and> 4 \<le> a ! 0 \<and> 2 \<le> a ! 1 \<and> 0 \<le> a ! 2)"
proof -
  from adstock_dominates_spend [of 1 "[0, 0]"]
  have z: "compute_adstock_series [0, 0] 1 = Inr [0, 0]"
    by (auto simp: numeral_2_eq_2)
  from adstock_dominates_spend [of 1 "[4, 2, 0]"]
  obtain a where a: "compute_adstock_series [4, 2, 0] 1 = Inr a"
    and dom: "\<forall>i<3. [4, 2, 0] ! i \<le> a ! i"
    by auto
  from dom [rule_format, of 0] dom [rule_format, of 1] dom [rule_format, of 2]
  have "4 \<le> a ! 0" "2 \<le> a ! 1" "0 \<le> a ! 2"
    by simp_all
  with a z show ?thesis by auto
qed

end
